theory Spec2Isabelle
  imports Main "HOL-Library.Sublist"
begin

section \<open>The OpenVPN client wrapper: data model\<close>

text \<open>
  The class \<^verbatim>\<open>OpenVpn\<close> (lib/OpenVpn.ts) supervises one child process, reads its
  output line by line and keeps a connection status. The model keeps the fields of the
  class in a record and every observable effect of a method (an assignment to the
  status field, an event given to the emitter, a write to the child's input, a signal
  sent to the child) in a trace, in the order in which the code performs them.
\<close>

datatype Status =
    Connecting | Connected | Disconnecting | Disconnected | Reconnecting | Stopped
  | Error | Auth | Auth_username | Auth_password | Auth_success | Auth_failed

text \<open>The string a status has in the TypeScript source (used in error messages).\<close>

fun statusName :: "Status \<Rightarrow> string" where
  "statusName Connecting = ''connecting''"
| "statusName Connected = ''connected''"
| "statusName Disconnecting = ''disconnecting''"
| "statusName Disconnected = ''disconnected''"
| "statusName Reconnecting = ''reconnecting''"
| "statusName Stopped = ''stopped''"
| "statusName Error = ''error''"
| "statusName Auth = ''auth''"
| "statusName Auth_username = ''auth_username''"
| "statusName Auth_password = ''auth_password''"
| "statusName Auth_success = ''auth_success''"
| "statusName Auth_failed = ''auth_failed''"

text \<open>The two channels of the event emitter: \<^verbatim>\<open>'status'\<close> and \<^verbatim>\<open>'log'\<close>.\<close>

datatype event = StatusEv Status | LogEv string

text \<open>
  A child process handle is a number. \<^verbatim>\<open>spawn\<close> is called with the default stdio, so
  a child always has an input pipe and \<^verbatim>\<open>process?.stdin?.write\<close> writes whenever the
  handle is held.
\<close>

type_synonym handle = nat

datatype action =
    Assign Status             \<comment> \<open>\<^verbatim>\<open>this.status = ...\<close>\<close>
  | Emit event                \<comment> \<open>\<^verbatim>\<open>this.eventEmitter.emit(...)\<close>\<close>
  | StdinWrite handle string  \<comment> \<open>\<^verbatim>\<open>this.process.stdin.write(...)\<close>\<close>
  | Signal handle string      \<comment> \<open>\<^verbatim>\<open>this.process.kill(...)\<close>\<close>

text \<open>The promise that \<^verbatim>\<open>connect()\<close> returns.\<close>

datatype promise = Pending | Resolved | Rejected string

text \<open>
  The fields of the class, the trace, and the promise and the listener of the latest
  call of \<^verbatim>\<open>connect()\<close> (one call is followed at a time). Listeners that the caller
  attaches with \<^verbatim>\<open>on\<close> are not part of the model.
\<close>

record session =
  configPath :: string
  username :: "string option"
  password :: "string option"
  authPath :: "string option"
  useAuthFile :: "bool option"
  customFlags :: "string list option"
  process :: "handle option"
  status :: Status
  tempDir :: "string option"
  isTempConfig :: bool
  trace :: "action list"
  listening :: bool             \<comment> \<open>\<^verbatim>\<open>statusListener\<close> of \<^verbatim>\<open>connect()\<close> is attached\<close>
  connectPromise :: promise     \<comment> \<open>the promise of the \<^verbatim>\<open>connect()\<close> call in flight\<close>

subsection \<open>JavaScript strings\<close>

text \<open>
  A string is a list of code units; the model covers the code units below 256.
  \<^verbatim>\<open>line.includes(p)\<close> holds when \<open>p\<close> occurs in \<open>line\<close> as a contiguous block.
\<close>

definition includesStr :: "string \<Rightarrow> string \<Rightarrow> bool" where
  "includesStr line p = sublist p line"

text \<open>A string is truthy when it is defined and not empty.\<close>

fun truthy :: "string option \<Rightarrow> bool" where
  "truthy None = False"
| "truthy (Some u) = (u \<noteq> [])"

text \<open>A template literal prints an undefined value as \<^verbatim>\<open>undefined\<close>.\<close>

fun interpolate :: "string option \<Rightarrow> string" where
  "interpolate None = ''undefined''"
| "interpolate (Some u) = u"

abbreviation LF :: char where "LF \<equiv> CHR 0x0A"
abbreviation CR :: char where "CR \<equiv> CHR 0x0D"

text \<open>
  The white space that \<^verbatim>\<open>String.prototype.trim\<close> removes, among the code units below
  256: tab, line feed, vertical tab, form feed, carriage return, space, no-break space.
\<close>

definition isWhite :: "char \<Rightarrow> bool" where
  "isWhite c = (c = CHR 0x09 \<or> c = LF \<or> c = CHR 0x0B \<or> c = CHR 0x0C \<or> c = CR
               \<or> c = CHR 0x20 \<or> c = CHR 0xA0)"

definition trim :: "string \<Rightarrow> string" where
  "trim l = rev (dropWhile isWhite (rev (dropWhile isWhite l)))"

text \<open>
  \<^verbatim>\<open>data.split(/\r?\n/)\<close>: scanning from the left, a line feed ends a piece, and a
  carriage return right before it belongs to the separator. The empty string splits
  into one empty piece.
\<close>

fun consFirst :: "char \<Rightarrow> string list \<Rightarrow> string list" where
  "consFirst c [] = [[c]]"
| "consFirst c (l # ls) = (c # l) # ls"

fun splitLines :: "string \<Rightarrow> string list" where
  "splitLines [] = [[]]"
| "splitLines [c] = (if c = LF then [[], []] else [[c]])"
| "splitLines (c # d # cs) =
     (if c = LF then [] # splitLines (d # cs)
      else if c = CR \<and> d = LF then [] # splitLines cs
      else consFirst c (splitLines (d # cs)))"

subsection \<open>The statements of the class\<close>

definition assignStatus :: "Status \<Rightarrow> session \<Rightarrow> session" where
  "assignStatus st s = s\<lparr>status := st, trace := trace s @ [Assign st]\<rparr>"

definition settle :: "promise \<Rightarrow> promise \<Rightarrow> promise" where
  "settle outcome p = (if p = Pending then outcome else p)"

text \<open>\<^verbatim>\<open>statusListener\<close> of \<^verbatim>\<open>connect()\<close>, run by the emitter while it is attached.\<close>

definition statusListener :: "Status \<Rightarrow> session \<Rightarrow> session" where
  "statusListener st s =
     (if st = Connected then
        s\<lparr>listening := False, connectPromise := settle Resolved (connectPromise s)\<rparr>
      else if st = Error \<or> st = Auth_failed then
        s\<lparr>listening := False,
          connectPromise :=
            settle (Rejected (''Connection failed: '' @ statusName st)) (connectPromise s)\<rparr>
      else s)"

text \<open>\<^verbatim>\<open>this.eventEmitter.emit('status', this.status)\<close>\<close>

definition emitStatus :: "session \<Rightarrow> session" where
  "emitStatus s =
     (let s' = s\<lparr>trace := trace s @ [Emit (StatusEv (status s))]\<rparr>
      in if listening s' then statusListener (status s) s' else s')"

text \<open>\<^verbatim>\<open>this.eventEmitter.emit('log', text)\<close>\<close>

definition emitLog :: "string \<Rightarrow> session \<Rightarrow> session" where
  "emitLog l s = s\<lparr>trace := trace s @ [Emit (LogEv l)]\<rparr>"

text \<open>\<^verbatim>\<open>this.process?.stdin?.write(text)\<close>\<close>

definition stdinWrite :: "string \<Rightarrow> session \<Rightarrow> session" where
  "stdinWrite d s =
     (case process s of
        None \<Rightarrow> s
      | Some h \<Rightarrow> s\<lparr>trace := trace s @ [StdinWrite h d]\<rparr>)"

subsection \<open>handleAuth, handleLog, handleChunk\<close>

datatype authType = AuthUsername | AuthPassword

definition handleAuth :: "authType \<Rightarrow> session \<Rightarrow> session" where
  "handleAuth ty s0 =
     (let s1 = (if ty = AuthUsername then
                  (if truthy (username s0)
                   then stdinWrite (interpolate (username s0) @ [LF]) s0
                   else emitStatus (assignStatus Auth_failed s0))
                else s0);
          s2 = (if ty = AuthPassword then
                  (if truthy (password s1)
                   then stdinWrite (interpolate (password s1) @ [LF]) s1
                   else emitStatus (assignStatus Auth_failed s1))
                else s1)
      in s2)"

definition handleLog :: "string \<Rightarrow> session \<Rightarrow> session" where
  "handleLog line s0 =
     (let s1 = emitLog line s0;
          s2 = (if (includesStr line ''PUSH: Received control message'' \<or>
                    includesStr line ''Initialization Sequence Completed'') \<and>
                   status s1 \<noteq> Connected
                then emitStatus (assignStatus Connected s1) else s1);
          s3 = (if includesStr line ''Exiting''
                then emitStatus (assignStatus Disconnected s2) else s2);
          s4 = (if includesStr line ''Enter Auth Username:''
                then handleAuth AuthUsername (emitStatus (assignStatus Auth_username s3))
                else s3);
          s5 = (if includesStr line ''Enter Auth Password:''
                then handleAuth AuthPassword (emitStatus (assignStatus Auth_password s4))
                else s4);
          s6 = (if includesStr line ''Verification Failed'' \<or> includesStr line ''AUTH_FAILED''
                then emitStatus (assignStatus Auth_failed s5) else s5);
          s7 = (if includesStr line ''Peer Connection Initiated''
                then emitStatus (assignStatus Auth_success s6) else s6);
          s8 = (if includesStr line ''SIGUSR1[soft,ping-restart] received, process restarting''
                then emitStatus (assignStatus Reconnecting s7) else s7);
          s9 = (if includesStr line ''Successful ARP Flush on interface'' \<and>
                   status s8 = Reconnecting
                then emitStatus (assignStatus Connected s8) else s8)
      in s9)"

text \<open>The body of the loop of \<^verbatim>\<open>handleChunk\<close>: a piece that trims to nothing is skipped.\<close>

definition feedLine :: "string \<Rightarrow> session \<Rightarrow> session" where
  "feedLine l s = (if trim l \<noteq> [] then handleLog l s else s)"

definition handleChunk :: "string \<Rightarrow> session \<Rightarrow> session" where
  "handleChunk chunk s = foldl (\<lambda>s' l. feedLine l s') s (splitLines chunk)"

subsection \<open>The pattern table\<close>

text \<open>
  The conditionals of \<^verbatim>\<open>handleLog\<close> read as a table, one row for each \<^verbatim>\<open>if\<close> in the
  order of the source: the substrings that select the row, the condition on the
  current status, the status the row assigns, and what the row asks of \<^verbatim>\<open>handleAuth\<close>.
\<close>

datatype guard = Always | UnlessConnected | WhenReconnecting

datatype sideEffect = NoEffect | Respond authType

type_synonym row = "string list \<times> guard \<times> Status \<times> sideEffect"

definition table :: "row list" where
  "table =
    [([''PUSH: Received control message'', ''Initialization Sequence Completed''],
        UnlessConnected, Connected, NoEffect),
     ([''Exiting''], Always, Disconnected, NoEffect),
     ([''Enter Auth Username:''], Always, Auth_username, Respond AuthUsername),
     ([''Enter Auth Password:''], Always, Auth_password, Respond AuthPassword),
     ([''Verification Failed'', ''AUTH_FAILED''], Always, Auth_failed, NoEffect),
     ([''Peer Connection Initiated''], Always, Auth_success, NoEffect),
     ([''SIGUSR1[soft,ping-restart] received, process restarting''],
        Always, Reconnecting, NoEffect),
     ([''Successful ARP Flush on interface''], WhenReconnecting, Connected, NoEffect)]"

fun guardHolds :: "guard \<Rightarrow> Status \<Rightarrow> bool" where
  "guardHolds Always st = True"
| "guardHolds UnlessConnected st = (st \<noteq> Connected)"
| "guardHolds WhenReconnecting st = (st = Reconnecting)"

fun runEffect :: "sideEffect \<Rightarrow> session \<Rightarrow> session" where
  "runEffect NoEffect s = s"
| "runEffect (Respond ty) s = handleAuth ty s"

fun rowMatches :: "string \<Rightarrow> row \<Rightarrow> bool" where
  "rowMatches line (pats, g, st, eff) = list_ex (includesStr line) pats"

fun applyRow :: "string \<Rightarrow> row \<Rightarrow> session \<Rightarrow> session" where
  "applyRow line (pats, g, st, eff) s =
     (if list_ex (includesStr line) pats \<and> guardHolds g (status s)
      then runEffect eff (emitStatus (assignStatus st s))
      else s)"

text \<open>Every row that matches is applied, top to bottom.\<close>

definition table_everyMatch :: "string \<Rightarrow> session \<Rightarrow> session" where
  "table_everyMatch line s = foldl (\<lambda>s' r. applyRow line r s') (emitLog line s) table"

text \<open>
  The classifier in the words of the specification: only the first row that matches
  is applied.
\<close>

definition spec_firstMatch :: "string \<Rightarrow> session \<Rightarrow> session" where
  "spec_firstMatch line s =
     (case find (rowMatches line) table of
        None \<Rightarrow> emitLog line s
      | Some r \<Rightarrow> applyRow line r (emitLog line s))"

text \<open>The status events among the actions of a trace, in order.\<close>

fun statusEvents :: "action list \<Rightarrow> Status list" where
  "statusEvents [] = []"
| "statusEvents (Emit (StatusEv st) # as) = st # statusEvents as"
| "statusEvents (a # as) = statusEvents as"

section \<open>Terminating the OpenVPN processes\<close>

text \<open>
  The operating system is a parameter: \<^verbatim>\<open>psList()\<close> and \<^verbatim>\<open>fkill(input, {force})\<close>
  answer from a state \<open>'w\<close> of the outside world, change it, and may throw.
  \<^verbatim>\<open>OpenvpnExecutableNames\<close> (constants/openvpn) is a parameter as well. The clock is a
  number of milliseconds that \<^verbatim>\<open>sleep\<close> advances; the time the calls themselves take is
  not counted.
\<close>

datatype error = Exn string

record procInfo =
  pid :: nat
  name :: string

datatype target = One nat | Many "nat list"

record 'w os =
  psList :: "'w \<Rightarrow> (error + procInfo list) \<times> 'w"
  fkill :: "target \<Rightarrow> bool \<Rightarrow> 'w \<Rightarrow> (error + unit) \<times> 'w"
  execNames :: "string list"

definition getProcesses :: "'w os \<Rightarrow> 'w \<Rightarrow> (error + procInfo list) \<times> 'w" where
  "getProcesses os w =
     (case psList os w of
        (Inl e, w') \<Rightarrow> (Inl e, w')
      | (Inr ps, w') \<Rightarrow> (Inr (filter (\<lambda>p. name p \<in> set (execNames os)) ps), w'))"

text \<open>\<^verbatim>\<open>for (const process of processes) await fkill(process.pid, { force })\<close>\<close>

fun killEach :: "'w os \<Rightarrow> bool \<Rightarrow> procInfo list \<Rightarrow> 'w \<Rightarrow> (error + unit) \<times> 'w" where
  "killEach os force [] w = (Inr (), w)"
| "killEach os force (p # ps) w =
     (case fkill os (One (pid p)) force w of
        (Inl e, w') \<Rightarrow> (Inl e, w')
      | (Inr u, w') \<Rightarrow> killEach os force ps w')"

text \<open>
  The polling loop. The result is \<open>Inr True\<close> when the loop found no process left (the
  method returns from inside the loop), \<open>Inr False\<close> when the time was up.
\<close>

function waitLoop ::
  "'w os \<Rightarrow> nat \<Rightarrow> nat \<Rightarrow> nat \<Rightarrow> 'w \<Rightarrow> (error + bool) \<times> nat \<times> 'w" where
  "waitLoop os startTime timeoutMs t w =
     (if t - startTime < timeoutMs then
        (case getProcesses os w of
           (Inl e, w') \<Rightarrow> (Inl e, t + 500, w')
         | (Inr ps, w') \<Rightarrow>
             if length ps = 0 then (Inr True, t + 500, w')
             else waitLoop os startTime timeoutMs (t + 500) w')
      else (Inr False, t, w))"
  by pat_completeness auto
termination
  by (relation "measure (\<lambda>(os, startTime, timeoutMs, t, w). startTime + timeoutMs - t)") auto

text \<open>
  The \<^verbatim>\<open>try\<close> block of the graceful branch; its \<^verbatim>\<open>catch\<close> swallows every error. The
  boolean says whether the method has returned.
\<close>

definition gracefulPhase ::
  "'w os \<Rightarrow> procInfo list \<Rightarrow> nat \<Rightarrow> nat \<Rightarrow> 'w \<Rightarrow> bool \<times> nat \<times> 'w" where
  "gracefulPhase os ps timeoutMs t w =
     (case killEach os False ps w of
        (Inl e, w1) \<Rightarrow> (False, t, w1)
      | (Inr u, w1) \<Rightarrow>
          (case waitLoop os t timeoutMs t w1 of
             (Inl e, t2, w2) \<Rightarrow> (False, t2, w2)
           | (Inr b, t2, w2) \<Rightarrow> (b, t2, w2)))"

text \<open>The second \<^verbatim>\<open>try\<close> block, and its \<^verbatim>\<open>catch\<close> block, which nothing guards.\<close>

definition forceTry :: "'w os \<Rightarrow> 'w \<Rightarrow> (error + unit) \<times> 'w" where
  "forceTry os w =
     (case getProcesses os w of
        (Inl e, w1) \<Rightarrow> (Inl e, w1)
      | (Inr ps, w1) \<Rightarrow> if length ps > 0 then killEach os True ps w1 else (Inr (), w1))"

definition forceRetry :: "'w os \<Rightarrow> 'w \<Rightarrow> (error + unit) \<times> 'w" where
  "forceRetry os w =
     (case getProcesses os w of
        (Inl e, w1) \<Rightarrow> (Inl e, w1)
      | (Inr ps, w1) \<Rightarrow>
          if length ps > 0 then fkill os (Many (map pid ps)) True w1 else (Inr (), w1))"

definition forcePhase :: "'w os \<Rightarrow> nat \<Rightarrow> 'w \<Rightarrow> (error + unit) \<times> nat \<times> 'w" where
  "forcePhase os t w =
     (case forceTry os w of
        (Inr u, w1) \<Rightarrow> (Inr (), t, w1)
      | (Inl e, w1) \<Rightarrow> (case forceRetry os w1 of (r, w2) \<Rightarrow> (r, t + 500, w2)))"

definition killProcesses ::
  "'w os \<Rightarrow> bool \<Rightarrow> nat \<Rightarrow> nat \<Rightarrow> 'w \<Rightarrow> (error + unit) \<times> nat \<times> 'w" where
  "killProcesses os graceful timeoutMs t w =
     (case getProcesses os w of
        (Inl e, w1) \<Rightarrow> (Inl e, t, w1)
      | (Inr ps, w1) \<Rightarrow>
          if length ps = 0 then (Inr (), t, w1)
          else if graceful then
            (case gracefulPhase os ps timeoutMs t w1 of
               (True, t2, w2) \<Rightarrow> (Inr (), t2, w2)
             | (False, t2, w2) \<Rightarrow> forcePhase os t2 w2)
          else forcePhase os t w1)"

section \<open>The lifecycle of a session\<close>

subsection \<open>Construction and the credential files\<close>

text \<open>
  The constructor copies \<^verbatim>\<open>configPath\<close>, \<^verbatim>\<open>username\<close>, \<^verbatim>\<open>password\<close>, \<^verbatim>\<open>useAuthFile\<close> and
  \<^verbatim>\<open>customFlags\<close> from its options; it does not copy \<^verbatim>\<open>authPath\<close>. The status starts
  as \<^verbatim>\<open>stopped\<close>.
\<close>

definition newOpenVpn ::
  "string \<Rightarrow> string option \<Rightarrow> string option \<Rightarrow> string option \<Rightarrow> bool option \<Rightarrow>
   string list option \<Rightarrow> session" where
  "newOpenVpn cfgPath user pass authP useAuth flags =
     \<lparr>configPath = cfgPath, username = user, password = pass, authPath = None,
      useAuthFile = useAuth, customFlags = flags, process = None, status = Stopped,
      tempDir = None, isTempConfig = False, trace = [], listening = False,
      connectPromise = Pending\<rparr>"

text \<open>
  The file system is a map from paths to contents; the writes are taken to succeed.
  \<^verbatim>\<open>path.join\<close> of a directory and a file name puts a separator between them; Node
  also normalises the result (a doubled separator, a dot segment), the model does not,
  which changes the spelling of a path and nothing else. The values of \<^verbatim>\<open>os.tmpdir()\<close>, \<^verbatim>\<open>Date.now()\<close> and \<^verbatim>\<open>Math.random()\<close> come in as strings.
\<close>

type_synonym files = "string \<rightharpoonup> string"

definition pathJoin :: "string \<Rightarrow> string \<Rightarrow> string" where
  "pathJoin dir file = dir @ ''/'' @ file"

fun truthyBool :: "bool option \<Rightarrow> bool" where
  "truthyBool None = False"
| "truthyBool (Some b) = b"

definition createFromConfig ::
  "string \<Rightarrow> string \<Rightarrow> string \<Rightarrow> string \<Rightarrow> string \<Rightarrow> string option \<Rightarrow> string option \<Rightarrow>
   bool option \<Rightarrow> string list option \<Rightarrow> files \<Rightarrow> session \<times> files" where
  "createFromConfig tmp dirStamp cfgStamp authStamp config user pass useAuth flags fs =
     (let tempDir' = pathJoin tmp (''openvpn-client-'' @ dirStamp);
          configFileName = ''config-'' @ cfgStamp @ ''.ovpn'';
          authFileName = ''auth-'' @ authStamp;
          configPath' = pathJoin tempDir' configFileName;
          authPath' = pathJoin tempDir' authFileName;
          fs1 = fs(configPath' \<mapsto> config);
          fs2 = (if truthyBool useAuth
                 then fs1(authPath' \<mapsto> interpolate user @ '':'' @ interpolate pass)
                 else fs1);
          instance = newOpenVpn configPath' user pass (Some authPath') useAuth flags
      in (instance\<lparr>tempDir := Some tempDir', isTempConfig := True\<rparr>, fs2))"

definition createAuthFile ::
  "string \<Rightarrow> string \<Rightarrow> string \<Rightarrow> files \<Rightarrow> session \<Rightarrow> string \<times> files \<times> session" where
  "createAuthFile tmp dirStamp authStamp fs s =
     (let s1 = (if \<not> truthy (tempDir s)
                then s\<lparr>tempDir := Some (pathJoin tmp (''openvpn-client-'' @ dirStamp))\<rparr>
                else s);
          authFileName = ''auth-'' @ authStamp;
          authPath' = pathJoin (interpolate (tempDir s1)) authFileName
      in (authPath',
          fs(authPath' \<mapsto> interpolate (username s1) @ [LF] @ interpolate (password s1)),
          s1))"

subsection \<open>The handlers and the synchronous segments of the asynchronous methods\<close>

text \<open>\<^verbatim>\<open>this.process.kill('SIGINT')\<close>, when a handle is held.\<close>

definition interrupt :: "session \<Rightarrow> session" where
  "interrupt s =
     (case process s of
        None \<Rightarrow> s
      | Some h \<Rightarrow> s\<lparr>trace := trace s @ [Signal h ''SIGINT'']\<rparr>)"

text \<open>\<^verbatim>\<open>bootstrap()\<close> up to its first \<^verbatim>\<open>await\<close>, and after its last.\<close>

definition bootstrap_begin :: "session \<Rightarrow> session" where
  "bootstrap_begin s = interrupt (emitStatus (assignStatus Connecting s))"

definition bootstrap_end :: "session \<Rightarrow> session" where
  "bootstrap_end s = s\<lparr>process := None\<rparr>"

text \<open>
  \<^verbatim>\<open>connect()\<close> after \<^verbatim>\<open>bootstrap()\<close>: the arguments, the credential file, the new child
  and the promise with its listener. \<^verbatim>\<open>getExecPath()\<close> answers from the file system and
  may throw; its answer \<open>exec\<close> is a parameter, and so is the handle \<open>h\<close> of the child
  that \<^verbatim>\<open>spawn\<close> returns. The result holds the command line of the child.
\<close>

definition connect_spawn ::
  "error + string \<Rightarrow> handle \<Rightarrow> string \<Rightarrow> string \<Rightarrow> string \<Rightarrow> files \<Rightarrow> session \<Rightarrow>
   error + (string list \<times> files \<times> session)" where
  "connect_spawn exec h tmp dirStamp authStamp fs s =
     (case exec of
        Inl e \<Rightarrow> Inl e
      | Inr execPath \<Rightarrow>
          (let args0 = [''--config'', configPath s];
               args1 = (if truthyBool (useAuthFile s) \<and> truthy (authPath s)
                        then args0 @ [''--auth-user-pass'', interpolate (authPath s)]
                        else args0);
               (args2, fs2, s2) =
                 (if truthyBool (useAuthFile s) \<and> \<not> truthy (authPath s)
                  then (case createAuthFile tmp dirStamp authStamp fs s of
                          (p, fs', s') \<Rightarrow>
                            (args1 @ [''--auth-user-pass'', p], fs', s'\<lparr>authPath := Some p\<rparr>))
                  else (args1, fs, s));
               args3 = (case customFlags s2 of
                          None \<Rightarrow> args2
                        | Some fl \<Rightarrow> if length fl > 0 then args2 @ fl else args2)
           in Inr (execPath # args3, fs2,
                   s2\<lparr>process := Some h, listening := True, connectPromise := Pending\<rparr>)))"

text \<open>The handlers of the child's \<^verbatim>\<open>close\<close> and \<^verbatim>\<open>error\<close> events.\<close>

definition onClose :: "session \<Rightarrow> session" where
  "onClose s = emitStatus (assignStatus Disconnected s)"

definition onError :: "string \<Rightarrow> session \<Rightarrow> session" where
  "onError msg s = emitLog (''Error: '' @ msg) (emitStatus (assignStatus Error s))"

text \<open>\<^verbatim>\<open>disconnect(graceful, timeoutMs)\<close> up to its first \<^verbatim>\<open>await\<close>.\<close>

definition disconnect_begin :: "bool \<Rightarrow> session \<Rightarrow> session" where
  "disconnect_begin graceful s =
     (let s1 = (if status s \<noteq> Disconnected \<and> status s \<noteq> Stopped \<and> status s \<noteq> Disconnecting
                then emitStatus (assignStatus Disconnecting s) else s)
      in if process s1 \<noteq> None \<and> graceful then interrupt s1 else s1)"

text \<open>
  \<^verbatim>\<open>cleanupTempConfig()\<close>. What the file system does is a parameter: the text of the
  error that deleting the two files throws, and of the error that deleting the
  directory throws, if they throw. The method only logs them.
\<close>

definition cleanupTempConfig :: "string option \<Rightarrow> string option \<Rightarrow> session \<Rightarrow> session" where
  "cleanupTempConfig unlinkErr rmErr s =
     (let s1 = (case unlinkErr of
                  None \<Rightarrow> s
                | Some e \<Rightarrow> emitLog (''Error cleaning up temp files: '' @ e) s)
      in if truthy (tempDir s1) \<and> isTempConfig s1
         then (case rmErr of
                 None \<Rightarrow> s1
               | Some e \<Rightarrow> emitLog (''Error cleaning up temp directory: '' @ e) s1)
         else s1)"

text \<open>\<^verbatim>\<open>disconnect\<close> after \<^verbatim>\<open>killProcesses\<close> has returned.\<close>

definition disconnect_end :: "string option \<Rightarrow> string option \<Rightarrow> session \<Rightarrow> session" where
  "disconnect_end unlinkErr rmErr s =
     (let s1 = s\<lparr>process := None\<rparr>;
          s2 = (if status s1 \<noteq> Disconnected \<and> status s1 \<noteq> Stopped \<and>
                   status s1 \<noteq> Disconnecting
                then emitStatus (assignStatus Disconnected s1) else s1)
      in cleanupTempConfig unlinkErr rmErr s2)"

text \<open>
  The callback of the 30 second timer of \<^verbatim>\<open>connect()\<close>. The call \<^verbatim>\<open>this.disconnect()\<close>
  in it is not awaited: it runs \<^verbatim>\<open>disconnect\<close> with the default arguments up to the
  first \<^verbatim>\<open>await\<close>.
\<close>

definition onTimeout :: "session \<Rightarrow> session" where
  "onTimeout s =
     (let s1 = s\<lparr>listening := False\<rparr>
      in if status s1 \<noteq> Connected \<and> status s1 \<noteq> Disconnected \<and>
            status s1 \<noteq> Reconnecting \<and> status s1 \<noteq> Disconnecting
         then disconnect_begin True
                (s1\<lparr>connectPromise :=
                      settle (Rejected ''Connection timeout'') (connectPromise s1)\<rparr>)
         else s1)"

subsection \<open>What reaches a session between two awaits\<close>

datatype input = Data string | Close | ProcError string | Timeout

fun deliver1 :: "input \<Rightarrow> session \<Rightarrow> session" where
  "deliver1 (Data chunk) s = handleChunk chunk s"
| "deliver1 Close s = onClose s"
| "deliver1 (ProcError msg) s = onError msg s"
| "deliver1 Timeout s = onTimeout s"

definition deliver :: "input list \<Rightarrow> session \<Rightarrow> session" where
  "deliver evs s = foldl (\<lambda>s' e. deliver1 e s') s evs"

text \<open>
  \<^verbatim>\<open>disconnect(graceful, timeoutMs)\<close> as a whole. \<open>evs\<close> is what the event loop delivers
  to the session while the method waits for the sleep and for \<^verbatim>\<open>killProcesses\<close>, \<open>evs'\<close>
  what it delivers during the last 250 ms. When \<^verbatim>\<open>killProcesses\<close> throws, the method
  throws and the rest of it does not run. The result holds the session, the clock and
  the state of the outside world. The sleep of \<^verbatim>\<open>min(500, timeoutMs / 2)\<close> is counted in
  whole milliseconds.
\<close>

definition disconnect ::
  "'w os \<Rightarrow> bool \<Rightarrow> nat \<Rightarrow> input list \<Rightarrow> input list \<Rightarrow> string option \<Rightarrow> string option \<Rightarrow>
   nat \<Rightarrow> 'w \<Rightarrow> session \<Rightarrow> (error + unit) \<times> session \<times> nat \<times> 'w" where
  "disconnect os graceful timeoutMs evs evs' unlinkErr rmErr t w s =
     (let s1 = disconnect_begin graceful s;
          t1 = (if process s \<noteq> None \<and> graceful then t + min 500 (timeoutMs div 2) else t);
          s2 = deliver evs s1
      in case killProcesses os graceful timeoutMs t1 w of
           (Inl e, t2, w2) \<Rightarrow> (Inl e, s2, t2, w2)
         | (Inr u, t2, w2) \<Rightarrow>
             (Inr (), deliver evs' (disconnect_end unlinkErr rmErr s2), t2 + 250, w2))"

text \<open>
  Every step a session can take: a handler, or a segment of an asynchronous method
  between two awaits. A run is any sequence of them.
\<close>

datatype step =
    BootstrapBegin
  | BootstrapEnd
  | Spawn "error + string" handle string string string files
  | Deliver input
  | DisconnectBegin bool
  | DisconnectEnd "string option" "string option"
  | Cleanup "string option" "string option"

fun step1 :: "step \<Rightarrow> session \<Rightarrow> session" where
  "step1 BootstrapBegin s = bootstrap_begin s"
| "step1 BootstrapEnd s = bootstrap_end s"
| "step1 (Spawn exec h tmp dirStamp authStamp fs) s =
     (case connect_spawn exec h tmp dirStamp authStamp fs s of
        Inl e \<Rightarrow> s
      | Inr (args, fs', s') \<Rightarrow> s')"
| "step1 (Deliver e) s = deliver1 e s"
| "step1 (DisconnectBegin graceful) s = disconnect_begin graceful s"
| "step1 (DisconnectEnd unlinkErr rmErr) s = disconnect_end unlinkErr rmErr s"
| "step1 (Cleanup unlinkErr rmErr) s = cleanupTempConfig unlinkErr rmErr s"

definition run :: "step list \<Rightarrow> session \<Rightarrow> session" where
  "run steps s = foldl (\<lambda>s' a. step1 a s') s steps"

text \<open>
  Reading a trace from a stored status: an assignment must be followed at once by the
  status event with the value assigned, and a status event must carry the value stored
  when it is emitted. The result is the status stored at the end, or \<open>None\<close> when the
  trace breaks one of the two rules.
\<close>

fun replay :: "Status \<Rightarrow> action list \<Rightarrow> Status option" where
  "replay cur [] = Some cur"
| "replay cur (Assign v # Emit (StatusEv v') # as) =
     (if v' = v then replay v as else None)"
| "replay cur (Assign v # as) = None"
| "replay cur (Emit (StatusEv v') # as) = (if v' = cur then replay cur as else None)"
| "replay cur (a # as) = replay cur as"

subsection \<open>Notions used in the properties\<close>

text \<open>The rows of the table that a line selects.\<close>

definition matchingRows :: "string \<Rightarrow> row list" where
  "matchingRows line = filter (rowMatches line) table"

text \<open>A piece of a chunk without the carriage return that a \<^verbatim>\<open>\r\n\<close> leaves at its end.\<close>

definition stripCR :: "string \<Rightarrow> string" where
  "stripCR l = (if l \<noteq> [] \<and> last l = CR then butlast l else l)"

text \<open>A session is consistent when its trace, read from \<^verbatim>\<open>stopped\<close>, ends in its status.\<close>

definition consistent :: "session \<Rightarrow> bool" where
  "consistent s = (replay Stopped (trace s) = Some (status s))"

text \<open>
  The promise of \<^verbatim>\<open>connect()\<close> waits while its listener is attached and it is pending.
  The listener settles it on the status events \<^verbatim>\<open>connected\<close>, \<^verbatim>\<open>error\<close> and \<^verbatim>\<open>auth_failed\<close>;
  a trace is quiet when it has none of them. A step keeps the promise waiting when it
  only adds to the trace and, if what it adds is quiet, leaves the promise waiting.
\<close>

definition waits :: "session \<Rightarrow> bool" where
  "waits s = (listening s \<and> connectPromise s = Pending)"

definition settles :: "Status \<Rightarrow> bool" where
  "settles st = (st = Connected \<or> st = Error \<or> st = Auth_failed)"

definition quiet :: "action list \<Rightarrow> bool" where
  "quiet tr = list_all (\<lambda>st. \<not> settles st) (statusEvents tr)"

definition keeps :: "(session \<Rightarrow> session) \<Rightarrow> bool" where
  "keeps f = (\<forall>s. \<exists>tr. trace (f s) = trace s @ tr \<and> (waits s \<and> quiet tr \<longrightarrow> waits (f s)))"

subsection \<open>Named inputs\<close>

text \<open>
  A new session for user \<^verbatim>\<open>alice\<close> with no password, and the session it is when
  \<^verbatim>\<open>connect()\<close> has run \<^verbatim>\<open>bootstrap()\<close> and spawned child 1: the status is \<^verbatim>\<open>connecting\<close>, the
  promise of \<^verbatim>\<open>connect()\<close> is pending.
\<close>

definition fresh :: session where
  "fresh = newOpenVpn ''client.ovpn'' (Some ''alice'') None None None None"

definition demo :: session where
  "demo =
     run [BootstrapBegin, BootstrapEnd,
          Spawn (Inr ''/usr/sbin/openvpn'') 1 ''/tmp'' ''1700000000000'' ''1700000000001-k3x9''
            Map.empty]
       fresh"

text \<open>The same with no user name and the password \<^verbatim>\<open>secret\<close>.\<close>

definition demo2 :: session where
  "demo2 =
     run [BootstrapBegin, BootstrapEnd,
          Spawn (Inr ''/usr/sbin/openvpn'') 1 ''/tmp'' ''1700000000000'' ''1700000000001-k3x9''
            Map.empty]
       (newOpenVpn ''client.ovpn'' None (Some ''secret'') None None None)"

text \<open>
  A session whose \<^verbatim>\<open>connect()\<close> was rejected because \<^verbatim>\<open>getExecPath()\<close> threw: the
  bootstrap has run, no child was spawned.
\<close>

definition notFound :: session where
  "notFound =
     run [BootstrapBegin, BootstrapEnd,
          Spawn (Inl (Exn ''OpenVPN not found'')) 1 ''/tmp'' ''1700000000000''
            ''1700000000001-k3x9'' Map.empty]
       fresh"

text \<open>What a child sends that fails its TLS handshake and keeps trying.\<close>

definition handshake :: "input list" where
  "handshake = [Data (''TLS Error: TLS handshake failed'' @ [LF])]"

text \<open>
  Three sessions later on: one whose child has announced a restart, one whose child
  has exited, one whose child has completed its initialization.
\<close>

definition restarting :: session where
  "restarting =
     deliver [Data (''TLS Error: TLS handshake failed'' @ [LF] @
                    ''SIGUSR1[soft,ping-restart] received, process restarting'' @ [LF])] demo"

definition closedEarly :: session where
  "closedEarly = deliver [Data (''Options error: Unrecognized option'' @ [LF]), Close] demo"

definition established :: session where
  "established = deliver [Data (''Initialization Sequence Completed'' @ [LF])] demo"



text \<open>An operating system with no OpenVPN process, where every call succeeds.\<close>

definition os_idle :: "unit os" where
  "os_idle =
     \<lparr>psList = (\<lambda>w. (Inr [], w)),
      fkill = (\<lambda>tg force w. (Inr (), w)),
      execNames = [''openvpn'', ''openvpn.exe'']\<rparr>"

section \<open>Properties\<close>

subsection \<open>Basic facts about the statements\<close>

lemma status_emitStatus [simp]: "status (emitStatus s) = status s"
  by (simp add: emitStatus_def statusListener_def Let_def)

lemma trace_emitStatus [simp]: "trace (emitStatus s) = trace s @ [Emit (StatusEv (status s))]"
  by (simp add: emitStatus_def statusListener_def Let_def)

lemma status_assignStatus [simp]: "status (assignStatus st s) = st"
  by (simp add: assignStatus_def)

lemma trace_assignStatus [simp]: "trace (assignStatus st s) = trace s @ [Assign st]"
  by (simp add: assignStatus_def)

lemma status_emitLog [simp]: "status (emitLog l s) = status s"
  by (simp add: emitLog_def)

lemma trace_emitLog [simp]: "trace (emitLog l s) = trace s @ [Emit (LogEv l)]"
  by (simp add: emitLog_def)

subsection \<open>The named sessions\<close>

lemma demo_val:
  "demo = \<lparr>configPath = ''client.ovpn'', username = Some ''alice'', password = None,
     authPath = None, useAuthFile = None, customFlags = None, process = Some 1,
     status = Connecting, tempDir = None, isTempConfig = False,
     trace = [Assign Connecting, Emit (StatusEv Connecting)], listening = True,
     connectPromise = Pending\<rparr>"
  by code_simp

lemma demo2_val:
  "demo2 = \<lparr>configPath = ''client.ovpn'', username = None, password = Some ''secret'',
     authPath = None, useAuthFile = None, customFlags = None, process = Some 1,
     status = Connecting, tempDir = None, isTempConfig = False,
     trace = [Assign Connecting, Emit (StatusEv Connecting)], listening = True,
     connectPromise = Pending\<rparr>"
  by code_simp

lemma restarting_val:
  "restarting = demo\<lparr>status := Reconnecting,
     trace := trace demo @
       [Emit (LogEv ''TLS Error: TLS handshake failed''),
        Emit (LogEv ''SIGUSR1[soft,ping-restart] received, process restarting''),
        Assign Reconnecting, Emit (StatusEv Reconnecting)]\<rparr>"
  by code_simp

subsection \<open>The conditionals of handleLog as a table\<close>

lemma applyRow_forms:
  "applyRow line ([p, q], UnlessConnected, st, NoEffect) s =
     (if (includesStr line p \<or> includesStr line q) \<and> status s \<noteq> Connected
      then emitStatus (assignStatus st s) else s)"
  "applyRow line ([p], Always, st, NoEffect) s =
     (if includesStr line p then emitStatus (assignStatus st s) else s)"
  "applyRow line ([p], Always, st, Respond ty) s =
     (if includesStr line p then handleAuth ty (emitStatus (assignStatus st s)) else s)"
  "applyRow line ([p, q], Always, st, NoEffect) s =
     (if includesStr line p \<or> includesStr line q then emitStatus (assignStatus st s) else s)"
  "applyRow line ([p], WhenReconnecting, st, NoEffect) s =
     (if includesStr line p \<and> status s = Reconnecting
      then emitStatus (assignStatus st s) else s)"
  by simp_all

lemma handleLog_table: "handleLog line s = table_everyMatch line s"
  unfolding handleLog_def table_everyMatch_def table_def
  apply (simp only: applyRow_forms [symmetric])
  apply (simp only: Let_def foldl.simps)
  done

lemma foldl_skip:
  assumes "\<And>x s. x \<in> set xs \<Longrightarrow> \<not> P x \<Longrightarrow> f s x = s"
  shows "filter P xs = [] \<Longrightarrow> foldl f s xs = s"
  using assms by (induction xs arbitrary: s) (auto split: if_splits)

lemma foldl_single:
  assumes "\<And>x s. x \<in> set xs \<Longrightarrow> \<not> P x \<Longrightarrow> f s x = s"
  shows "filter P xs = [r] \<Longrightarrow> foldl f s xs = f s r"
  using assms
proof (induction xs arbitrary: s)
  case Nil
  then show ?case by simp
next
  case (Cons x xs)
  show ?case
  proof (cases "P x")
    case True
    with Cons.prems(1) have "x = r" "filter P xs = []" by auto
    moreover have "foldl f (f s x) xs = f s x"
      by (rule foldl_skip [where P = P]) (use Cons.prems(2) \<open>filter P xs = []\<close> in auto)
    ultimately show ?thesis by simp
  next
    case False
    with Cons.prems(1) have "filter P xs = [r]" by simp
    moreover have "f s x = s" using Cons.prems(2) False by simp
    ultimately show ?thesis using Cons.IH Cons.prems(2) by simp
  qed
qed

lemma applyRow_skip: "\<not> rowMatches line r \<Longrightarrow> applyRow line r s = s"
  by (cases r) simp

lemma everyMatch_single:
  "matchingRows line = [r] \<Longrightarrow> table_everyMatch line s = applyRow line r (emitLog line s)"
  unfolding matchingRows_def table_everyMatch_def
  by (rule foldl_single [where P = "rowMatches line"]) (simp_all add: applyRow_skip)

lemma everyMatch_none:
  "matchingRows line = [] \<Longrightarrow> table_everyMatch line s = emitLog line s"
  unfolding matchingRows_def table_everyMatch_def
  by (rule foldl_skip [where P = "rowMatches line"]) (simp_all add: applyRow_skip)

lemma single_row:
  "matchingRows line = [r] \<Longrightarrow> handleLog line s = applyRow line r (emitLog line s)"
  by (simp add: handleLog_table everyMatch_single)

lemma single_row_matches: "matchingRows line = [r] \<Longrightarrow> rowMatches line r"
proof -
  assume "matchingRows line = [r]"
  then have "r \<in> set (matchingRows line)" by simp
  then show ?thesis by (simp add: matchingRows_def)
qed

subsection \<open>Lines that match several rows (C1)\<close>

text \<open>
  Claim C1, as amended. The claim says that a line yields at most one transition, the
  one of the first row it matches. The conditionals of \<^verbatim>\<open>handleLog\<close> are independent:
  going down the table, every row whose substring the line contains and whose
  condition holds at that point is applied, with its own assignment, its own status
  event and its own request to the Auth Responder. A line that matches one row only is
  handled by that row alone, and a line that matches none is only logged.
\<close>

theorem handleLog_every_match:
  "handleLog line s = table_everyMatch line s \<and>
   (matchingRows line = [r] \<longrightarrow> handleLog line s = applyRow line r (emitLog line s)) \<and>
   (matchingRows line = [] \<longrightarrow> handleLog line s = emitLog line s)"
  by (simp add: handleLog_table everyMatch_single everyMatch_none)

theorem handleLog_every_match_witness:
  "matchingRows ''process Exiting'' = [([''Exiting''], Always, Disconnected, NoEffect)] \<and>
   handleLog ''process Exiting'' demo =
     applyRow ''process Exiting'' ([''Exiting''], Always, Disconnected, NoEffect)
       (emitLog ''process Exiting'' demo) \<and>
   matchingRows ''TLS: Initial packet'' = [] \<and>
   handleLog ''TLS: Initial packet'' demo = emitLog ''TLS: Initial packet'' demo"
proof -
  have a: "matchingRows ''process Exiting'' = [([''Exiting''], Always, Disconnected, NoEffect)]"
    by (simp add: matchingRows_def table_def includesStr_def sublist_code)
  have b: "matchingRows ''TLS: Initial packet'' = []"
    by (simp add: matchingRows_def table_def includesStr_def sublist_code)
  show ?thesis
    using a b
      handleLog_every_match [of "''process Exiting''" demo
        "([''Exiting''], Always, Disconnected, NoEffect)"]
      handleLog_every_match [of "''TLS: Initial packet''" demo]
    by blast
qed

text \<open>
  Claim C1 as it is written fails on the line \<^verbatim>\<open>Exiting AUTH_FAILED\<close>: the code emits two
  status events and ends in the status of the later row, where the first match alone
  would emit one and end in \<^verbatim>\<open>disconnected\<close>.
\<close>

theorem first_match_counterexample:
  "statusEvents (trace demo) = [Connecting] \<and>
   statusEvents (trace (handleLog ''Exiting AUTH_FAILED'' demo)) =
     [Connecting, Disconnected, Auth_failed] \<and>
   status (handleLog ''Exiting AUTH_FAILED'' demo) = Auth_failed \<and>
   statusEvents (trace (spec_firstMatch ''Exiting AUTH_FAILED'' demo)) =
     [Connecting, Disconnected] \<and>
   status (spec_firstMatch ''Exiting AUTH_FAILED'' demo) = Disconnected"
  by (simp add: handleLog_def spec_firstMatch_def table_def demo_val
      includesStr_def sublist_code Let_def)

subsection \<open>The ARP flush line (C7)\<close>

text \<open>
  Claim C7. For a line that contains \<^verbatim>\<open>Successful ARP Flush on interface\<close> and the
  substring of no other row, the status becomes \<^verbatim>\<open>connected\<close> exactly when it was
  \<^verbatim>\<open>reconnecting\<close> before the line; from every other status the line is only logged:
  no assignment, no status event, the status as before.
\<close>

theorem arp_flush_only_when_reconnecting:
  assumes "matchingRows line =
             [([''Successful ARP Flush on interface''], WhenReconnecting, Connected, NoEffect)]"
  shows "status (handleLog line s) = (if status s = Reconnecting then Connected else status s) \<and>
         trace (handleLog line s) =
           trace s @ Emit (LogEv line) #
             (if status s = Reconnecting then [Assign Connected, Emit (StatusEv Connected)]
              else [])"
  using single_row [OF assms, of s] single_row_matches [OF assms] by simp

theorem arp_flush_only_when_reconnecting_witness:
  "matchingRows ''Successful ARP Flush on interface [12] {4F1A}'' =
     [([''Successful ARP Flush on interface''], WhenReconnecting, Connected, NoEffect)] \<and>
   status restarting = Reconnecting \<and>
   status (handleLog ''Successful ARP Flush on interface [12] {4F1A}'' restarting) =
     Connected \<and>
   trace (handleLog ''Successful ARP Flush on interface [12] {4F1A}'' restarting) =
     trace restarting @
       [Emit (LogEv ''Successful ARP Flush on interface [12] {4F1A}''), Assign Connected,
        Emit (StatusEv Connected)] \<and>
   status demo = Connecting \<and>
   status (handleLog ''Successful ARP Flush on interface [12] {4F1A}'' demo) = Connecting \<and>
   trace (handleLog ''Successful ARP Flush on interface [12] {4F1A}'' demo) =
     trace demo @ [Emit (LogEv ''Successful ARP Flush on interface [12] {4F1A}'')]"
proof -
  have a: "matchingRows ''Successful ARP Flush on interface [12] {4F1A}'' =
     [([''Successful ARP Flush on interface''], WhenReconnecting, Connected, NoEffect)]"
    by (simp add: matchingRows_def table_def includesStr_def sublist_code)
  have b: "status restarting = Reconnecting" "status demo = Connecting"
    by (simp_all add: restarting_val demo_val)
  show ?thesis
    using a b arp_flush_only_when_reconnecting [OF a, of restarting]
      arp_flush_only_when_reconnecting [OF a, of demo]
    by simp
qed

subsection \<open>The PUSH line (C8)\<close>

text \<open>
  Claim C8, as amended. The claim speaks of every line that contains
  \<^verbatim>\<open>PUSH: Received control message\<close>; since every matching row is applied, it holds for
  the lines that contain that substring and the substring of no other row. For such a
  line: when the status is already \<^verbatim>\<open>connected\<close> the line is only logged and the status
  stays; otherwise the status becomes \<^verbatim>\<open>connected\<close>, with one status event. Processing
  the same line a second time adds the log event and nothing else.
\<close>

theorem push_idempotent:
  assumes "includesStr line ''PUSH: Received control message''"
    and "matchingRows line =
           [([''PUSH: Received control message'', ''Initialization Sequence Completed''],
             UnlessConnected, Connected, NoEffect)]"
  shows "status (handleLog line s) = Connected \<and>
         trace (handleLog line s) =
           trace s @ Emit (LogEv line) #
             (if status s = Connected then [] else [Assign Connected, Emit (StatusEv Connected)]) \<and>
         status (handleLog line (handleLog line s)) = Connected \<and>
         trace (handleLog line (handleLog line s)) = trace (handleLog line s) @ [Emit (LogEv line)]"
proof -
  have step: "status (handleLog line s') = Connected \<and>
         trace (handleLog line s') =
           trace s' @ Emit (LogEv line) #
             (if status s' = Connected then [] else [Assign Connected, Emit (StatusEv Connected)])"
    for s'
    using single_row [OF assms(2), of s'] assms(1) by simp
  from step [of s] step [of "handleLog line s"] show ?thesis by simp
qed

theorem push_idempotent_witness:
  "includesStr ''PUSH: Received control message: PUSH_REPLY,ping 10''
     ''PUSH: Received control message'' \<and>
   status demo = Connecting \<and>
   status (handleLog ''PUSH: Received control message: PUSH_REPLY,ping 10'' demo) = Connected \<and>
   trace (handleLog ''PUSH: Received control message: PUSH_REPLY,ping 10'' demo) =
     trace demo @
       [Emit (LogEv ''PUSH: Received control message: PUSH_REPLY,ping 10''), Assign Connected,
        Emit (StatusEv Connected)] \<and>
   trace (handleLog ''PUSH: Received control message: PUSH_REPLY,ping 10''
           (handleLog ''PUSH: Received control message: PUSH_REPLY,ping 10'' demo)) =
     trace demo @
       [Emit (LogEv ''PUSH: Received control message: PUSH_REPLY,ping 10''), Assign Connected,
        Emit (StatusEv Connected),
        Emit (LogEv ''PUSH: Received control message: PUSH_REPLY,ping 10'')]"
proof -
  have a: "includesStr ''PUSH: Received control message: PUSH_REPLY,ping 10''
             ''PUSH: Received control message''"
    by (simp add: includesStr_def sublist_code)
  have b: "matchingRows ''PUSH: Received control message: PUSH_REPLY,ping 10'' =
           [([''PUSH: Received control message'', ''Initialization Sequence Completed''],
             UnlessConnected, Connected, NoEffect)]"
    by (simp add: matchingRows_def table_def includesStr_def sublist_code)
  have c: "status demo = Connecting" by (simp add: demo_val)
  show ?thesis
    using a c push_idempotent [OF a b, of demo] by simp
qed

text \<open>
  Claim C8 as it is written fails on a PUSH line that holds the substring of a later
  row. From \<^verbatim>\<open>connected\<close>, the line with \<^verbatim>\<open>AUTH_FAILED\<close> in it does not leave the status
  unchanged: it ends in \<^verbatim>\<open>auth_failed\<close>. From \<^verbatim>\<open>connecting\<close>, the line with \<^verbatim>\<open>Exiting\<close> in
  it does not end in \<^verbatim>\<open>connected\<close>: it ends in \<^verbatim>\<open>disconnected\<close>.
\<close>

theorem push_idempotent_counterexample:
  "includesStr ''PUSH: Received control message AUTH_FAILED'' ''PUSH: Received control message'' \<and>
   status established = Connected \<and>
   status (handleLog ''PUSH: Received control message AUTH_FAILED'' established) = Auth_failed \<and>
   trace (handleLog ''PUSH: Received control message AUTH_FAILED'' established) =
     trace established @
       [Emit (LogEv ''PUSH: Received control message AUTH_FAILED''), Assign Auth_failed,
        Emit (StatusEv Auth_failed)] \<and>
   includesStr ''PUSH: Received control message Exiting'' ''PUSH: Received control message'' \<and>
   status demo = Connecting \<and>
   status (handleLog ''PUSH: Received control message Exiting'' demo) = Disconnected \<and>
   trace (handleLog ''PUSH: Received control message Exiting'' demo) =
     trace demo @
       [Emit (LogEv ''PUSH: Received control message Exiting''), Assign Connected,
        Emit (StatusEv Connected), Assign Disconnected, Emit (StatusEv Disconnected)]"
  by code_simp

subsection \<open>The Auth Responder (C6)\<close>

lemma fields_emitStatus [simp]:
  "process (emitStatus s) = process s"
  "username (emitStatus s) = username s"
  "password (emitStatus s) = password s"
  by (simp_all add: emitStatus_def statusListener_def Let_def)

lemma fields_assignStatus [simp]:
  "process (assignStatus st s) = process s"
  "username (assignStatus st s) = username s"
  "password (assignStatus st s) = password s"
  by (simp_all add: assignStatus_def)

lemma fields_emitLog [simp]:
  "process (emitLog l s) = process s"
  "username (emitLog l s) = username s"
  "password (emitLog l s) = password s"
  by (simp_all add: emitLog_def)

lemma handleAuth_username:
  "status (handleAuth AuthUsername s) = (if truthy (username s) then status s else Auth_failed)"
  "trace (handleAuth AuthUsername s) =
     trace s @ (if truthy (username s)
                then (case process s of None \<Rightarrow> []
                      | Some h \<Rightarrow> [StdinWrite h (interpolate (username s) @ [LF])])
                else [Assign Auth_failed, Emit (StatusEv Auth_failed)])"
  by (simp_all add: handleAuth_def stdinWrite_def split: option.splits)

lemma handleAuth_password:
  "status (handleAuth AuthPassword s) = (if truthy (password s) then status s else Auth_failed)"
  "trace (handleAuth AuthPassword s) =
     trace s @ (if truthy (password s)
                then (case process s of None \<Rightarrow> []
                      | Some h \<Rightarrow> [StdinWrite h (interpolate (password s) @ [LF])])
                else [Assign Auth_failed, Emit (StatusEv Auth_failed)])"
  by (simp_all add: handleAuth_def stdinWrite_def split: option.splits)

text \<open>
  Claim C6. The \<^verbatim>\<open>auth_username\<close> event is what the row \<^verbatim>\<open>Enter Auth Username:\<close> of
  \<^verbatim>\<open>handleLog\<close> does: it assigns and emits \<^verbatim>\<open>auth_username\<close> and calls
  \<^verbatim>\<open>handleAuth('username')\<close>. While the child is held: if a user name is configured
  (defined and not empty, the test of the source), exactly the user name and a line
  feed are written to the input of the child and the status is \<^verbatim>\<open>auth_username\<close>; if none
  is configured nothing is written and the status becomes \<^verbatim>\<open>auth_failed\<close>, emitted as
  well. The same for \<^verbatim>\<open>auth_password\<close> and the password.
\<close>

theorem auth_responder:
  assumes "process s = Some h"
  shows
    "(username s = Some u \<and> u \<noteq> [] \<longrightarrow>
      status (handleAuth AuthUsername (emitStatus (assignStatus Auth_username s))) =
        Auth_username \<and>
      trace (handleAuth AuthUsername (emitStatus (assignStatus Auth_username s))) =
        trace s @ [Assign Auth_username, Emit (StatusEv Auth_username),
                   StdinWrite h (u @ [LF])]) \<and>
     (\<not> truthy (username s) \<longrightarrow>
      status (handleAuth AuthUsername (emitStatus (assignStatus Auth_username s))) =
        Auth_failed \<and>
      trace (handleAuth AuthUsername (emitStatus (assignStatus Auth_username s))) =
        trace s @ [Assign Auth_username, Emit (StatusEv Auth_username),
                   Assign Auth_failed, Emit (StatusEv Auth_failed)]) \<and>
     (password s = Some u \<and> u \<noteq> [] \<longrightarrow>
      status (handleAuth AuthPassword (emitStatus (assignStatus Auth_password s))) =
        Auth_password \<and>
      trace (handleAuth AuthPassword (emitStatus (assignStatus Auth_password s))) =
        trace s @ [Assign Auth_password, Emit (StatusEv Auth_password),
                   StdinWrite h (u @ [LF])]) \<and>
     (\<not> truthy (password s) \<longrightarrow>
      status (handleAuth AuthPassword (emitStatus (assignStatus Auth_password s))) =
        Auth_failed \<and>
      trace (handleAuth AuthPassword (emitStatus (assignStatus Auth_password s))) =
        trace s @ [Assign Auth_password, Emit (StatusEv Auth_password),
                   Assign Auth_failed, Emit (StatusEv Auth_failed)])"
  using assms by (auto simp: handleAuth_username handleAuth_password)

text \<open>
  The scenario of the specification: the line \<^verbatim>\<open>2024-01-01 Enter Auth Username:\<close> with
  the user name \<^verbatim>\<open>alice\<close>; then the password prompt with no password; and both prompts
  with a password and no user name.
\<close>

theorem auth_responder_witness:
  "process demo = Some 1 \<and> username demo = Some ''alice'' \<and> \<not> truthy (password demo) \<and>
   status (handleLog ''2024-01-01 Enter Auth Username:'' demo) = Auth_username \<and>
   trace (handleLog ''2024-01-01 Enter Auth Username:'' demo) =
     trace demo @
       [Emit (LogEv ''2024-01-01 Enter Auth Username:''), Assign Auth_username,
        Emit (StatusEv Auth_username), StdinWrite 1 (''alice'' @ [LF])] \<and>
   status (handleLog ''Enter Auth Password:'' demo) = Auth_failed \<and>
   trace (handleLog ''Enter Auth Password:'' demo) =
     trace demo @
       [Emit (LogEv ''Enter Auth Password:''), Assign Auth_password,
        Emit (StatusEv Auth_password), Assign Auth_failed, Emit (StatusEv Auth_failed)] \<and>
   process demo2 = Some 1 \<and> \<not> truthy (username demo2) \<and> password demo2 = Some ''secret'' \<and>
   status (handleLog ''2024-01-01 Enter Auth Username:'' demo2) = Auth_failed \<and>
   trace (handleLog ''Enter Auth Password:'' demo2) =
     trace demo2 @
       [Emit (LogEv ''Enter Auth Password:''), Assign Auth_password,
        Emit (StatusEv Auth_password), StdinWrite 1 (''secret'' @ [LF])]"
proof -
  let ?user = "''2024-01-01 Enter Auth Username:''" and ?pass = "''Enter Auth Password:''"
  have a: "matchingRows ?user =
             [([''Enter Auth Username:''], Always, Auth_username, Respond AuthUsername)]"
    by (simp add: matchingRows_def table_def includesStr_def sublist_code)
  have b: "matchingRows ?pass =
             [([''Enter Auth Password:''], Always, Auth_password, Respond AuthPassword)]"
    by (simp add: matchingRows_def table_def includesStr_def sublist_code)
  have rows:
    "handleLog ?user s =
       handleAuth AuthUsername (emitStatus (assignStatus Auth_username (emitLog ?user s)))"
    "handleLog ?pass s =
       handleAuth AuthPassword (emitStatus (assignStatus Auth_password (emitLog ?pass s)))"
    for s
    using single_row [OF a, of s] single_row_matches [OF a]
      single_row [OF b, of s] single_row_matches [OF b]
    by simp_all
  have f: "process demo = Some 1" "process demo2 = Some 1"
    "username demo = Some ''alice''" "\<not> truthy (password demo)"
    "\<not> truthy (username demo2)" "password demo2 = Some ''secret''"
    by (simp_all add: demo_val demo2_val)
  have p: "process (emitLog l demo) = Some 1" "process (emitLog l demo2) = Some 1" for l
    by (simp_all add: f)
  show ?thesis
    using f
      auth_responder [OF p(1), of ?user "''alice''"]
      auth_responder [OF p(1), of ?pass]
      auth_responder [OF p(2), of ?user]
      auth_responder [OF p(2), of ?pass "''secret''"]
    by (simp add: rows)
qed

subsection \<open>Chunks and lines (C5)\<close>

lemma splitLines_no_LF: "LF \<notin> set l \<Longrightarrow> splitLines l = [l]"
  by (induction l rule: splitLines.induct) auto

lemma stripCR_Cons: "stripCR (c # d # l) = c # stripCR (d # l)"
  by (simp add: stripCR_def)

lemma splitLines_LF_head: "splitLines (LF # rest) = [] # splitLines rest"
  by (cases rest) simp_all

lemma splitLines_LF:
  "LF \<notin> set l \<Longrightarrow> splitLines (l @ LF # rest) = stripCR l # splitLines rest"
proof (induction l rule: induct_list012)
  case 1
  then show ?case by (simp add: splitLines_LF_head stripCR_def)
next
  case (2 c)
  then show ?case by (simp add: splitLines_LF_head stripCR_def)
next
  case (3 c d l)
  then have "c \<noteq> LF" "d \<noteq> LF" "LF \<notin> set (d # l)" by auto
  with 3 show ?case by (simp add: stripCR_Cons)
qed

text \<open>
  Claim C5, as amended. The claim says that a trailing piece with no line terminator
  is held back until a later chunk completes it. \<^verbatim>\<open>handleChunk\<close> keeps nothing between
  chunks: each chunk is split at its line terminators on its own, and every piece that
  does not trim to nothing is classified at once, the last piece included, whether or
  not a terminator ends it. So a chunk with no line feed is classified as a whole, and
  a chunk \<open>l\<close>, line feed, \<open>rest\<close> is handled as the line \<open>l\<close> (without a carriage return
  at its end) followed by the chunk \<open>rest\<close>.
\<close>

theorem handleChunk_pieces:
  assumes "LF \<notin> set l"
  shows "handleChunk l s = feedLine l s \<and>
         handleChunk (l @ LF # rest) s = handleChunk rest (feedLine (stripCR l) s) \<and>
         feedLine l s = (if trim l = [] then s else handleLog l s)"
  using assms by (simp add: handleChunk_def splitLines_no_LF splitLines_LF feedLine_def)

text \<open>
  Claim C5 as it is written fails on a chunk that stops in the middle of a line: the
  fragment is logged and classified at once and changes the status. And a line that
  arrives in two chunks is never classified as one line: its two halves are, and the
  status that the whole line gives is not reached.
\<close>

theorem partial_line_counterexample:
  "LF \<notin> set ''[server] Peer Connection Initiated with'' \<and>
   status demo = Connecting \<and>
   status (handleChunk ''[server] Peer Connection Initiated with'' demo) = Auth_success \<and>
   trace (handleChunk ''[server] Peer Connection Initiated with'' demo) =
     trace demo @
       [Emit (LogEv ''[server] Peer Connection Initiated with''), Assign Auth_success,
        Emit (StatusEv Auth_success)] \<and>
   status (handleChunk (''Initialization Sequence Completed'' @ [LF]) demo) = Connected \<and>
   status (handleChunk (''uence Completed'' @ [LF])
             (handleChunk ''Initialization Seq'' demo)) = Connecting"
  by code_simp

theorem handleChunk_pieces_witness:
  "LF \<notin> set ''Exiting due to fatal error'' \<and>
   handleChunk ''Exiting due to fatal error'' demo = feedLine ''Exiting due to fatal error'' demo \<and>
   status (handleChunk ''Exiting due to fatal error'' demo) = Disconnected \<and>
   handleChunk (''Exiting due to fatal error'' @ LF # ''rest'') demo =
     handleChunk ''rest'' (feedLine (stripCR ''Exiting due to fatal error'') demo)"
proof -
  have a: "LF \<notin> set ''Exiting due to fatal error''" by simp
  have b: "status (feedLine ''Exiting due to fatal error'' demo) = Disconnected"
    by code_simp
  show ?thesis using a b handleChunk_pieces [OF a, of demo "''rest''"] by simp
qed

subsection \<open>killProcesses and the errors of the kill primitive (C4)\<close>







subsection \<open>disconnect and the status at its end (C2)\<close>

text \<open>
  Claim C2 at a failing input. The claim says that \<^verbatim>\<open>disconnect()\<close> ends in
  \<^verbatim>\<open>disconnected\<close> from every status but \<^verbatim>\<open>stopped\<close>. The session here is the one left by a
  \<^verbatim>\<open>connect()\<close> that was rejected before it spawned a child: status \<^verbatim>\<open>connecting\<close>, no
  handle. \<^verbatim>\<open>disconnect()\<close> returns normally and the status is \<^verbatim>\<open>disconnecting\<close>: the first
  block has set it, and the condition of the last block excludes exactly that value, so
  \<^verbatim>\<open>disconnected\<close> is never assigned nor emitted. The same from \<^verbatim>\<open>connected\<close> when no
  \<^verbatim>\<open>close\<close> event of the child arrives while the method waits; when one arrives, its
  handler sets \<^verbatim>\<open>disconnected\<close>.
\<close>

theorem disconnect_stuck:
  "status notFound = Connecting \<and> process notFound = None \<and>
   fst (disconnect os_idle True 1000 [] [] None None 0 () notFound) = Inr () \<and>
   status (fst (snd (disconnect os_idle True 1000 [] [] None None 0 () notFound))) =
     Disconnecting \<and>
   statusEvents (trace (fst (snd (disconnect os_idle True 1000 [] [] None None 0 () notFound)))) =
     [Connecting, Disconnecting] \<and>
   status established = Connected \<and>
   status (fst (snd (disconnect os_idle True 1000 [] [] None None 0 () established))) =
     Disconnecting \<and>
   status (fst (snd (disconnect os_idle True 1000 [Close] [] None None 0 () established))) =
     Disconnected"
  by code_simp

subsection \<open>The timer of connect (C3)\<close>

lemma statusEvents_append: "statusEvents (xs @ ys) = statusEvents xs @ statusEvents ys"
  by (induction xs rule: statusEvents.induct) simp_all

lemma quiet_append: "quiet (xs @ ys) = (quiet xs \<and> quiet ys)"
  by (simp add: quiet_def statusEvents_append)

lemma keepsI:
  assumes "\<And>s. trace (f s) = trace s @ tr s"
    and "\<And>s. waits s \<Longrightarrow> quiet (tr s) \<Longrightarrow> waits (f s)"
  shows "keeps f"
  unfolding keeps_def using assms by blast

lemma keeps_id: "keeps (\<lambda>s. s)"
  by (rule keepsI [where tr = "\<lambda>s. []"]) simp_all

lemma keeps_comp:
  assumes "keeps f" and "keeps g"
  shows "keeps (\<lambda>s. g (f s))"
  unfolding keeps_def
proof
  fix s
  from assms(1) obtain tr1 where 1: "trace (f s) = trace s @ tr1"
    "waits s \<and> quiet tr1 \<longrightarrow> waits (f s)"
    unfolding keeps_def by blast
  from assms(2) obtain tr2 where 2: "trace (g (f s)) = trace (f s) @ tr2"
    "waits (f s) \<and> quiet tr2 \<longrightarrow> waits (g (f s))"
    unfolding keeps_def by blast
  have "trace (g (f s)) = trace s @ (tr1 @ tr2)" using 1 2 by simp
  moreover have "waits s \<and> quiet (tr1 @ tr2) \<longrightarrow> waits (g (f s))"
    using 1 2 by (simp add: quiet_append)
  ultimately show "\<exists>tr. trace (g (f s)) = trace s @ tr \<and> (waits s \<and> quiet tr \<longrightarrow> waits (g (f s)))"
    by blast
qed

lemma keeps_if:
  assumes "keeps f" and "keeps g"
  shows "keeps (\<lambda>s. if c s then f s else g s)"
  using assms unfolding keeps_def by auto

lemma keeps_foldl:
  assumes "\<And>x. keeps (\<lambda>s. f s x)"
  shows "keeps (\<lambda>s. foldl f s xs)"
proof (induction xs rule: rev_induct)
  case Nil
  show ?case by (simp add: keeps_id)
next
  case (snoc x xs)
  from keeps_comp [OF snoc assms [of x]] show ?case by simp
qed

lemma keeps_assignStatus: "keeps (assignStatus st)"
  by (rule keepsI [where tr = "\<lambda>s. [Assign st]"]) (simp_all add: assignStatus_def waits_def)

lemma keeps_emitStatus: "keeps emitStatus"
  by (rule keepsI [where tr = "\<lambda>s. [Emit (StatusEv (status s))]"])
    (auto simp: emitStatus_def statusListener_def waits_def quiet_def settles_def Let_def)

lemma keeps_emitLog: "keeps (emitLog l)"
  by (rule keepsI [where tr = "\<lambda>s. [Emit (LogEv l)]"]) (simp_all add: emitLog_def waits_def)

lemma keeps_set: "keeps (\<lambda>s. emitStatus (assignStatus st s))"
  by (rule keeps_comp [OF keeps_assignStatus keeps_emitStatus])

lemma keeps_stdinWrite: "keeps (stdinWrite d)"
  by (rule keepsI [where tr = "\<lambda>s. case process s of None \<Rightarrow> [] | Some h \<Rightarrow> [StdinWrite h d]"])
    (simp_all add: stdinWrite_def waits_def split: option.splits)

lemma keeps_handleAuth: "keeps (handleAuth ty)"
proof -
  have "keeps (\<lambda>s. if truthy (username s) then stdinWrite (interpolate (username s) @ [LF]) s
                    else emitStatus (assignStatus Auth_failed s))"
    (is "keeps ?u")
    unfolding keeps_def using keeps_stdinWrite keeps_set [of Auth_failed]
    by (auto simp: keeps_def)
  moreover have "keeps (\<lambda>s. if truthy (password s) then stdinWrite (interpolate (password s) @ [LF]) s
                    else emitStatus (assignStatus Auth_failed s))"
    (is "keeps ?p")
    unfolding keeps_def using keeps_stdinWrite keeps_set [of Auth_failed]
    by (auto simp: keeps_def)
  moreover have "handleAuth AuthUsername = ?u" "handleAuth AuthPassword = ?p"
    by (auto simp: handleAuth_def fun_eq_iff)
  ultimately show ?thesis by (cases ty) simp_all
qed

lemma keeps_applyRow: "keeps (applyRow line r)"
proof -
  obtain pats g st eff where r: "r = (pats, g, st, eff)" by (cases r) auto
  have e: "keeps (\<lambda>s. runEffect eff (emitStatus (assignStatus st s)))"
    using keeps_comp [OF keeps_set keeps_handleAuth] keeps_set by (cases eff) simp_all
  have "applyRow line r =
          (\<lambda>s. if list_ex (includesStr line) pats \<and> guardHolds g (status s)
                then runEffect eff (emitStatus (assignStatus st s)) else s)"
    by (simp add: r fun_eq_iff)
  then show ?thesis using keeps_if [OF e keeps_id] by simp
qed

lemma keeps_handleLog: "keeps (handleLog line)"
proof -
  have "handleLog line = (\<lambda>s. foldl (\<lambda>s' r. applyRow line r s') (emitLog line s) table)"
    by (simp add: fun_eq_iff handleLog_table table_everyMatch_def)
  moreover have "keeps (\<lambda>s. foldl (\<lambda>s' r. applyRow line r s') s table)"
    by (rule keeps_foldl) (rule keeps_applyRow)
  ultimately show ?thesis using keeps_comp [OF keeps_emitLog] by simp
qed

lemma keeps_handleChunk: "keeps (handleChunk chunk)"
proof -
  have "keeps (feedLine l)" for l
    using keeps_if [OF keeps_handleLog keeps_id, of "\<lambda>s. trim l \<noteq> []" l]
    by (simp add: feedLine_def [abs_def])
  then have "keeps (\<lambda>s. foldl (\<lambda>s' l. feedLine l s') s (splitLines chunk))"
    by (intro keeps_foldl)
  then show ?thesis by (simp add: handleChunk_def [abs_def])
qed

lemma keeps_deliver1: "e \<noteq> Timeout \<Longrightarrow> keeps (deliver1 e)"
proof (cases e)
  case (Data chunk)
  then show ?thesis using keeps_handleChunk [of chunk] by (simp add: deliver1.simps [abs_def])
next
  case Close
  then show ?thesis using keeps_set [of Disconnected] by (simp add: onClose_def [abs_def] fun_eq_iff deliver1.simps [abs_def])
next
  case (ProcError msg)
  then show ?thesis
    using keeps_comp [OF keeps_set [of Error] keeps_emitLog]
    by (simp add: onError_def [abs_def] deliver1.simps [abs_def])
qed simp

lemma keeps_deliver: "Timeout \<notin> set evs \<Longrightarrow> keeps (deliver evs)"
proof (induction evs rule: rev_induct)
  case Nil
  show ?case by (simp add: deliver_def [abs_def] keeps_id)
next
  case (snoc e evs)
  then have "e \<noteq> Timeout" and "keeps (deliver evs)" by auto
  from keeps_comp [OF this(2) keeps_deliver1 [OF this(1)]]
  show ?case by (simp add: deliver_def [abs_def])
qed

lemma still_waiting:
  assumes "waits s" and "Timeout \<notin> set evs" and "trace (deliver evs s) = trace s @ tr" and "quiet tr"
  shows "waits (deliver evs s)"
proof -
  from keeps_deliver [OF assms(2)] obtain tr' where
    "trace (deliver evs s) = trace s @ tr'" "waits s \<and> quiet tr' \<longrightarrow> waits (deliver evs s)"
    unfolding keeps_def by blast
  with assms show ?thesis by simp
qed

lemma promise_disconnect_begin:
  "\<not> listening s \<Longrightarrow> connectPromise (disconnect_begin g s) = connectPromise s"
  by (simp add: disconnect_begin_def emitStatus_def assignStatus_def interrupt_def Let_def
      split: option.splits)

lemma timeout_rejects:
  assumes "connectPromise s = Pending"
    and "status s \<notin> {Connected, Disconnected, Reconnecting, Disconnecting}"
  shows "connectPromise (onTimeout s) = Rejected ''Connection timeout'' \<and>
         onTimeout s =
           disconnect_begin True
             (s\<lparr>listening := False, connectPromise := Rejected ''Connection timeout''\<rparr>) \<and>
         (status s \<noteq> Stopped \<longrightarrow>
            status (onTimeout s) = Disconnecting \<and>
            trace (onTimeout s) =
              trace s @ [Assign Disconnecting, Emit (StatusEv Disconnecting)] @
                (case process s of None \<Rightarrow> [] | Some h \<Rightarrow> [Signal h ''SIGINT'']))"
proof -
  have eq: "onTimeout s =
           disconnect_begin True
             (s\<lparr>listening := False, connectPromise := Rejected ''Connection timeout''\<rparr>)"
    using assms by (simp add: onTimeout_def settle_def Let_def)
  have "connectPromise (onTimeout s) = Rejected ''Connection timeout''"
    unfolding eq by (simp add: promise_disconnect_begin)
  moreover have "status (onTimeout s) = Disconnecting \<and>
            trace (onTimeout s) =
              trace s @ [Assign Disconnecting, Emit (StatusEv Disconnecting)] @
                (case process s of None \<Rightarrow> [] | Some h \<Rightarrow> [Signal h ''SIGINT''])"
    if "status s \<noteq> Stopped"
    unfolding eq using that assms(2)
    by (simp add: disconnect_begin_def emitStatus_def assignStatus_def interrupt_def Let_def
        split: option.splits)
  ultimately show ?thesis using eq by simp
qed

lemma connect_spawn_waits:
  "connect_spawn exec h tmp dirStamp authStamp fs s = Inr (args, fs', s0) \<Longrightarrow> waits s0"
  by (auto simp: connect_spawn_def waits_def Let_def split: sum.splits prod.splits)

text \<open>
  The statuses that the guard of the timer lets through. Let \<open>s0\<close> be the session when
  \<^verbatim>\<open>connect()\<close> has spawned the child and waits on its promise, and \<open>evs\<close> what the child
  sends until the deadline. If none of the status events emitted meanwhile is
  \<^verbatim>\<open>connected\<close>, \<^verbatim>\<open>error\<close> or \<^verbatim>\<open>auth_failed\<close>, and the status at the deadline is none of
  \<^verbatim>\<open>connected\<close>, \<^verbatim>\<open>disconnected\<close>, \<^verbatim>\<open>reconnecting\<close>, \<^verbatim>\<open>disconnecting\<close>, then the promise is
  rejected with \<^verbatim>\<open>Connection timeout\<close> and \<^verbatim>\<open>disconnect()\<close> is invoked: the status becomes
  \<^verbatim>\<open>disconnecting\<close>, it is emitted, and the child gets the interrupt signal.
\<close>

lemma timer_rejects_when_let_through:
  assumes "connect_spawn exec h tmp dirStamp authStamp fs s = Inr (args, fs', s0)"
    and "Timeout \<notin> set evs"
    and "trace (deliver evs s0) = trace s0 @ tr" and "quiet tr"
    and "status (deliver evs s0) \<notin> {Connected, Disconnected, Reconnecting, Disconnecting}"
  shows "connectPromise (onTimeout (deliver evs s0)) = Rejected ''Connection timeout'' \<and>
         onTimeout (deliver evs s0) =
           disconnect_begin True
             ((deliver evs s0)\<lparr>listening := False,
                               connectPromise := Rejected ''Connection timeout''\<rparr>) \<and>
         (status (deliver evs s0) \<noteq> Stopped \<longrightarrow>
            status (onTimeout (deliver evs s0)) = Disconnecting \<and>
            trace (onTimeout (deliver evs s0)) =
              trace (deliver evs s0) @ [Assign Disconnecting, Emit (StatusEv Disconnecting)] @
                (case process (deliver evs s0) of None \<Rightarrow> [] | Some h \<Rightarrow> [Signal h ''SIGINT'']))"
proof -
  have "waits s0" using assms(1) by (rule connect_spawn_waits)
  from still_waiting [OF this assms(2,3,4)]
  have "connectPromise (deliver evs s0) = Pending" by (simp add: waits_def)
  from timeout_rejects [OF this assms(5)] show ?thesis .
qed

text \<open>An instance: a child that fails its TLS handshake until the deadline.\<close>

lemma timer_rejects_when_let_through_example:
  "connect_spawn (Inr ''/usr/sbin/openvpn'') 1 ''/tmp'' ''1700000000000'' ''1700000000001-k3x9''
     Map.empty (bootstrap_end (bootstrap_begin fresh)) =
     Inr ([''/usr/sbin/openvpn'', ''--config'', ''client.ovpn''], Map.empty, demo) \<and>
   Timeout \<notin> set handshake \<and>
   trace (deliver handshake demo) =
     trace demo @ [Emit (LogEv ''TLS Error: TLS handshake failed'')] \<and>
   quiet [Emit (LogEv ''TLS Error: TLS handshake failed'')] \<and>
   status (deliver handshake demo) = Connecting \<and>
   connectPromise (onTimeout (deliver handshake demo)) = Rejected ''Connection timeout'' \<and>
   status (onTimeout (deliver handshake demo)) = Disconnecting \<and>
   trace (onTimeout (deliver handshake demo)) =
     trace demo @
       [Emit (LogEv ''TLS Error: TLS handshake failed''), Assign Disconnecting,
        Emit (StatusEv Disconnecting), Signal 1 ''SIGINT'']"
proof -
  have a: "connect_spawn (Inr ''/usr/sbin/openvpn'') 1 ''/tmp'' ''1700000000000''
             ''1700000000001-k3x9'' Map.empty (bootstrap_end (bootstrap_begin fresh)) =
           Inr ([''/usr/sbin/openvpn'', ''--config'', ''client.ovpn''], Map.empty, demo)"
    by (simp add: demo_def run_def fresh_def newOpenVpn_def connect_spawn_def
        bootstrap_end_def bootstrap_begin_def interrupt_def emitStatus_def assignStatus_def
        Let_def)
  have b: "Timeout \<notin> set handshake" by (simp add: handshake_def)
  have c: "trace (deliver handshake demo) =
             trace demo @ [Emit (LogEv ''TLS Error: TLS handshake failed'')]"
    by code_simp
  have d: "quiet [Emit (LogEv ''TLS Error: TLS handshake failed'')]"
    by (simp add: quiet_def)
  have e: "status (deliver handshake demo) = Connecting"
    "process (deliver handshake demo) = Some 1"
    by code_simp+
  have f: "status (deliver handshake demo) \<notin> {Connected, Disconnected, Reconnecting, Disconnecting}"
    unfolding e by simp
  from timer_rejects_when_let_through [OF a b c d f]
  have "connectPromise (onTimeout (deliver handshake demo)) = Rejected ''Connection timeout''"
    and "status (deliver handshake demo) \<noteq> Stopped \<longrightarrow>
            status (onTimeout (deliver handshake demo)) = Disconnecting \<and>
            trace (onTimeout (deliver handshake demo)) =
              trace (deliver handshake demo) @
                [Assign Disconnecting, Emit (StatusEv Disconnecting)] @
                (case process (deliver handshake demo) of
                   None \<Rightarrow> [] | Some h \<Rightarrow> [Signal h ''SIGINT''])"
    by blast+
  with a b c d e show ?thesis by simp
qed

text \<open>
  Claim C3 at two failing inputs. The claim says that \<^verbatim>\<open>connect()\<close> rejects with a timeout
  error, and invokes \<^verbatim>\<open>disconnect()\<close>, whatever the status is at the deadline. In the
  first session the child has reported an option error and exited, in the second it
  has announced a restart: no status event was \<^verbatim>\<open>connected\<close>, \<^verbatim>\<open>error\<close> or \<^verbatim>\<open>auth_failed\<close>
  and the promise is pending. The callback of the timer removes the listener and does
  nothing else: it does not reject the promise and does not invoke \<^verbatim>\<open>disconnect()\<close>. With
  the listener gone nothing settles the promise any more: when the second child
  connects after the deadline, the status becomes \<^verbatim>\<open>connected\<close> and the promise is still
  pending.
\<close>

theorem connect_timeout_hangs:
  "statusEvents (trace closedEarly) = [Connecting, Disconnected] \<and>
   status closedEarly = Disconnected \<and> connectPromise closedEarly = Pending \<and>
   connectPromise (onTimeout closedEarly) = Pending \<and>
   \<not> listening (onTimeout closedEarly) \<and>
   trace (onTimeout closedEarly) = trace closedEarly \<and>
   statusEvents (trace restarting) = [Connecting, Reconnecting] \<and>
   status restarting = Reconnecting \<and> connectPromise restarting = Pending \<and>
   connectPromise (onTimeout restarting) = Pending \<and>
   \<not> listening (onTimeout restarting) \<and>
   trace (onTimeout restarting) = trace restarting \<and>
   status (deliver [Data (''Initialization Sequence Completed'' @ [LF])]
             (onTimeout restarting)) = Connected \<and>
   connectPromise (deliver [Data (''Initialization Sequence Completed'' @ [LF])]
                     (onTimeout restarting)) = Pending"
  by code_simp

subsection \<open>Assignments and status events (C9)\<close>

lemma replay_append:
  "replay c xs = Some c' \<Longrightarrow> replay c (xs @ ys) = replay c' ys"
  by (induction c xs rule: replay.induct) (auto split: if_splits)

lemma consistent_extend:
  assumes "consistent s" and "trace s' = trace s @ tr" and "replay (status s) tr = Some (status s')"
  shows "consistent s'"
  using assms replay_append [of Stopped "trace s" "status s" tr] by (simp add: consistent_def)

lemma consistent_same:
  "trace s' = trace s \<Longrightarrow> status s' = status s \<Longrightarrow> consistent s' = consistent s"
  by (simp add: consistent_def)

lemma consistent_set: "consistent s \<Longrightarrow> consistent (emitStatus (assignStatus st s))"
  by (rule consistent_extend [where tr = "[Assign st, Emit (StatusEv st)]"]) simp_all

lemma consistent_emitLog: "consistent s \<Longrightarrow> consistent (emitLog l s)"
  by (rule consistent_extend [where tr = "[Emit (LogEv l)]"]) simp_all

lemma consistent_stdinWrite: "consistent s \<Longrightarrow> consistent (stdinWrite d s)"
proof (cases "process s")
  case None
  then show "consistent s \<Longrightarrow> ?thesis" by (simp add: stdinWrite_def)
next
  case (Some h)
  assume "consistent s"
  then show ?thesis
    by (rule consistent_extend [where tr = "[StdinWrite h d]"]) (simp_all add: stdinWrite_def Some)
qed

lemma consistent_interrupt: "consistent s \<Longrightarrow> consistent (interrupt s)"
proof (cases "process s")
  case None
  then show "consistent s \<Longrightarrow> ?thesis" by (simp add: interrupt_def)
next
  case (Some h)
  assume "consistent s"
  then show ?thesis
    by (rule consistent_extend [where tr = "[Signal h ''SIGINT'']"]) (simp_all add: interrupt_def Some)
qed

lemma consistent_handleAuth: "consistent s \<Longrightarrow> consistent (handleAuth ty s)"
  by (cases ty) (simp_all add: handleAuth_def consistent_set consistent_stdinWrite)

lemma consistent_applyRow: "consistent s \<Longrightarrow> consistent (applyRow line r s)"
proof -
  assume c: "consistent s"
  obtain pats g st eff where r: "r = (pats, g, st, eff)" by (cases r) auto
  show ?thesis
    using c by (cases eff) (simp_all add: r consistent_set consistent_handleAuth)
qed

lemma foldl_invariant:
  assumes "\<And>s x. I s \<Longrightarrow> I (f s x)"
  shows "I s \<Longrightarrow> I (foldl f s xs)"
  using assms by (induction xs arbitrary: s) auto

lemma consistent_handleLog: "consistent s \<Longrightarrow> consistent (handleLog line s)"
  unfolding handleLog_table table_everyMatch_def
  by (rule foldl_invariant [where I = consistent]) (simp_all add: consistent_applyRow consistent_emitLog)

lemma consistent_handleChunk: "consistent s \<Longrightarrow> consistent (handleChunk chunk s)"
  unfolding handleChunk_def
  by (rule foldl_invariant [where I = consistent]) (simp_all add: feedLine_def consistent_handleLog)

lemma consistent_disconnect_begin: "consistent s \<Longrightarrow> consistent (disconnect_begin g s)"
  by (simp add: disconnect_begin_def Let_def consistent_set consistent_interrupt)

lemma consistent_cleanup: "consistent s \<Longrightarrow> consistent (cleanupTempConfig a b s)"
  by (simp add: cleanupTempConfig_def Let_def consistent_emitLog split: option.splits)

lemma consistent_process_update [simp]: "consistent (s\<lparr>process := p\<rparr>) = consistent s"
  by (simp add: consistent_def)

lemma consistent_disconnect_end: "consistent s \<Longrightarrow> consistent (disconnect_end a b s)"
  by (simp add: disconnect_end_def Let_def consistent_set consistent_cleanup)

lemma consistent_onTimeout: "consistent s \<Longrightarrow> consistent (onTimeout s)"
proof -
  assume "consistent s"
  then have "consistent (s\<lparr>listening := False,
      connectPromise := settle (Rejected ''Connection timeout'') (connectPromise s)\<rparr>)"
    and "consistent (s\<lparr>listening := False\<rparr>)"
    by (simp_all add: consistent_def)
  then show ?thesis
    by (simp add: onTimeout_def Let_def consistent_disconnect_begin)
qed

lemma consistent_deliver1: "consistent s \<Longrightarrow> consistent (deliver1 e s)"
  by (cases e)
    (simp_all add: consistent_handleChunk onClose_def onError_def consistent_set
      consistent_emitLog consistent_onTimeout)

lemma consistent_bootstrap_begin: "consistent s \<Longrightarrow> consistent (bootstrap_begin s)"
  by (simp add: bootstrap_begin_def consistent_set consistent_interrupt)

lemma connect_spawn_trace:
  "connect_spawn exec h tmp d a fs s = Inr (args, fs', s') \<Longrightarrow>
   trace s' = trace s \<and> status s' = status s"
  by (auto simp: connect_spawn_def createAuthFile_def Let_def split: sum.splits if_splits)

lemma consistent_step1: "consistent s \<Longrightarrow> consistent (step1 a s)"
proof (cases a)
  case (Spawn exec h tmp d au fs)
  assume c: "consistent s"
  show ?thesis
  proof (cases "connect_spawn exec h tmp d au fs s")
    case (Inl e)
    with c Spawn show ?thesis by simp
  next
    case (Inr res)
    obtain args fs' s' where "res = (args, fs', s')" by (cases res) auto
    with Inr connect_spawn_trace [of exec h tmp d au fs s args fs' s'] c Spawn
    show ?thesis by (simp add: consistent_def)
  qed
qed (simp_all add: consistent_bootstrap_begin bootstrap_end_def consistent_deliver1
      consistent_disconnect_begin consistent_disconnect_end consistent_cleanup)

lemma consistent_run: "consistent s \<Longrightarrow> consistent (run steps s)"
  unfolding run_def
  by (rule foldl_invariant [where I = consistent]) (simp_all add: consistent_step1)

text \<open>
  Claim C9. Take a new session, made by the constructor or by \<^verbatim>\<open>createFromConfig\<close>, and
  let it run through any sequence of steps: the segments of \<^verbatim>\<open>bootstrap\<close>, \<^verbatim>\<open>connect\<close> and
  \<^verbatim>\<open>disconnect\<close>, the handlers of the child's output, \<^verbatim>\<open>close\<close> and \<^verbatim>\<open>error\<close> events, the
  timer, \<^verbatim>\<open>cleanup\<close>. In the trace of the run every assignment to the status is followed
  at once by a status event with the value assigned, every status event carries the
  status stored when it is emitted, and the status stored at the end is the one the
  trace ends in.
\<close>

theorem status_emission_consistent:
  "replay Stopped (trace (run steps (newOpenVpn cfg user pass authP useAuth flags))) =
     Some (status (run steps (newOpenVpn cfg user pass authP useAuth flags))) \<and>
   replay Stopped
     (trace (run steps (fst (createFromConfig tmp d c a config user pass useAuth flags fs)))) =
     Some (status (run steps (fst (createFromConfig tmp d c a config user pass useAuth flags fs))))"
proof -
  have "consistent (newOpenVpn cfg user pass authP useAuth flags)"
    by (simp add: consistent_def newOpenVpn_def)
  moreover have "consistent (fst (createFromConfig tmp d c a config user pass useAuth flags fs))"
    by (simp add: consistent_def createFromConfig_def newOpenVpn_def Let_def)
  ultimately show ?thesis
    using consistent_run unfolding consistent_def by blast
qed

subsection \<open>The two credential files (C10)\<close>


end
